theory Spec2Isabelle
  imports Complex_Main
begin

section \<open>Data model of the block-following scheduler\<close>

text \<open>
  The embedding follows the current revision of \<^verbatim>\<open>src/src/index.ts\<close> (the second text in
  that file: \<^verbatim>\<open>processBlock\<close>, \<^verbatim>\<open>startScheduler\<close> and \<^verbatim>\<open>main\<close> with the
  \<^verbatim>\<open>timeoutCalls\<close> counter and the rollback check). JavaScript numbers that hold block
  numbers, counts and millisecond instants are integers there and are modelled as \<open>int\<close>.
  The fields of \<^verbatim>\<open>TestConfig\<close> and \<^verbatim>\<open>TestResult\<close> share names in the source; a record
  field is a constant in HOL, so they carry the prefixes \<open>cfg_\<close> and \<open>res_\<close>. The local
  variables of \<^verbatim>\<open>startScheduler\<close> keep their names.
\<close>

record TestConfig =
  cfg_startTimeMs :: int
  cfg_startBlockNumber :: "int option"
  cfg_finishBlockNumber :: "int option"
  cfg_targetRunningTimeMs :: "int option"
  cfg_rpcUrl :: string
  cfg_batchSize :: int

record TestResult =
  res_idx :: int
  res_calls :: int
  res_failCalls :: int
  res_retryCalls :: int
  res_finishTimeMs :: int
  res_startBlockNumber :: int
  res_finishBlockNumber :: int
  res_totalCallMs :: int
  res_rpcUrl :: string

record Failure =
  reason :: string
  timestamp :: int

text \<open>
  What \<^verbatim>\<open>processBlock\<close> can throw: its own \<^verbatim>\<open>Error(`Can't find ${blockNumber} block`)\<close>,
  or the rejection of \<^verbatim>\<open>provider.getBlock\<close> that the \<^verbatim>\<open>await\<close> re-throws. A rejection
  of the provider is represented by the text its \<^verbatim>\<open>toString()\<close> gives.
\<close>

datatype error = CantFindBlock int | Rejected string

text \<open>
  What a run does besides counting, as far as the properties below speak of it: the sleep of
  line 390, the block numbers of a dispatched batch (lines 396-398), the tick at which the
  join of line 400 resumes, the error caught at line 422 (also by the \<^verbatim>\<open>catch\<close> when the
  poll is rejected), and the log lines of lines 416 and 419.
\<close>

datatype event =
    Slept int
  | Dispatched "int list"
  | Joined nat
  | Caught error
  | FailedButSkip
  | BatchFinished int int

text \<open>
  The mutable local variables of \<^verbatim>\<open>startScheduler\<close> (lines 323-328 and 361), and the
  events of the run so far, which are not a variable of the program.
\<close>

record vars =
  totalReqs :: int
  totalCalls :: int
  totalCallMs :: int
  failCalls :: int
  timeoutCalls :: int
  retryCalls :: int
  currBlockNumber :: int
  events :: "event list"

section \<open>The RPC client as the scheduler sees it\<close>

text \<open>
  The node and the HTTP client (the \<^verbatim>\<open>ethers\<close> package) are outside the repository. A run
  of the program is determined by what they answer, so every call of the provider is given
  by the environment as a value of type \<open>'a rpc\<close>: the HTTP requests the call causes
  (with \<^verbatim>\<open>batchMaxSize: 1\<close> normally a single one), and how the returned promise settles
  (\<open>Inl\<close> the text of the rejection, \<open>Inr\<close> the value).

  A request is a list of scripted attempts. The contract of \<^verbatim>\<open>FetchRequest\<close>, as the
  package documents it: \<^verbatim>\<open>preflightFunc\<close> runs before each attempt is sent;
  \<^verbatim>\<open>retryFunc\<close> is asked when the response has status 429, and the request is sent again
  only if it answers true; \<^verbatim>\<open>processFunc\<close> runs on the response that is returned. An
  attempt that gets no response (a timeout after \<^verbatim>\<open>RPC_TIMEOUT_MS\<close>, a connection
  failure) ends the request without \<^verbatim>\<open>processFunc\<close>.
\<close>

record FetchRequest =
  header_startTimeMs :: int

record FetchResponse =
  statusCode :: int
  receivedAt :: int

record attempt =
  sentAt :: int
  response :: "FetchResponse option"

record 'a rpc =
  requests :: "attempt list list"
  outcome :: "string + 'a"

text \<open>Lines 330-335: stamp \<^verbatim>\<open>Date.now()\<close> into the request, count the request.\<close>

definition preflightFunc :: "int \<Rightarrow> vars \<Rightarrow> FetchRequest \<Rightarrow> vars \<times> FetchRequest" where
  "preflightFunc now v req =
     (v\<lparr>totalReqs := totalReqs v + 1\<rparr>, req\<lparr>header_startTimeMs := now\<rparr>)"

text \<open>Lines 337-343: on a response, count the call and add its latency.\<close>

definition processFunc :: "int \<Rightarrow> vars \<Rightarrow> FetchRequest \<Rightarrow> FetchResponse \<Rightarrow> vars \<times> FetchResponse" where
  "processFunc now v req resp =
     (let startTimeMs = header_startTimeMs req;
          callTimeMs = now - startTimeMs
      in (v\<lparr>totalCalls := totalCalls v + 1, totalCallMs := totalCallMs v + callTimeMs\<rparr>, resp))"

text \<open>
  Lines 345-355: the body starts with \<^verbatim>\<open>return false\<close>; the statements after it (the test
  for status 429 and \<^verbatim>\<open>attempt <= 3\<close>, with \<^verbatim>\<open>retryCalls++\<close>) are never executed.
\<close>

definition retryFunc :: "vars \<Rightarrow> FetchRequest \<Rightarrow> FetchResponse \<Rightarrow> int \<Rightarrow> vars \<times> bool" where
  "retryFunc v req res attempt = (v, False)"

text \<open>
  One request, from attempt number \<open>n\<close> on, under the contract above; the hooks are the
  three of the program.
\<close>

fun send :: "nat \<Rightarrow> attempt list \<Rightarrow> vars \<Rightarrow> vars" where
  "send n [] v = v"
| "send n (a # later) v =
     (let (v1, req) = preflightFunc (sentAt a) v \<lparr>header_startTimeMs = 0\<rparr>
      in case response a of
           None \<Rightarrow> v1
         | Some resp \<Rightarrow>
             if statusCode resp = 429 then
               (let (v2, again) = retryFunc v1 req resp (int n)
                in if again then send (Suc n) later v2
                   else fst (processFunc (receivedAt resp) v2 req resp))
             else fst (processFunc (receivedAt resp) v1 req resp))"

definition perform :: "'a rpc \<Rightarrow> vars \<Rightarrow> vars" where
  "perform call v = foldl (\<lambda>w r. send 0 r w) v (requests call)"

section \<open>The block processor\<close>

record block =
  transactions :: "string list"

datatype receipt = Receipt string

text \<open>
  What one invocation of \<^verbatim>\<open>processBlock\<close> meets: the answer to \<^verbatim>\<open>getBlock\<close> (the
  value \<open>None\<close> is the \<^verbatim>\<open>null\<close> of a block the node does not have), the answer to
  \<^verbatim>\<open>getTransactionReceipt\<close> for each hash, the reading of \<^verbatim>\<open>Date.now()\<close> when the
  \<open>i\<close>-th settled receipt is examined, and the instant, in ticks after the dispatch, at which
  the promise of the invocation settles.
\<close>

record blockEnv =
  getBlock :: "block option rpc"
  getTransactionReceipt :: "string \<Rightarrow> receipt option rpc"
  examinedAt :: "int \<Rightarrow> int"
  settlesAt :: nat

text \<open>\<^verbatim>\<open>Promise.allSettled\<close>: one status per promise, in order, whatever the outcomes.\<close>

definition Promise_allSettled :: "('e + 'a) list \<Rightarrow> ('e + 'a) list" where
  "Promise_allSettled ps = ps"

text \<open>
  Lines 303-308: one \<^verbatim>\<open>Failure\<close> per rejected receipt, with the text of
  \<^verbatim>\<open>reason.toString()\<close> and the reading of \<^verbatim>\<open>Date.now()\<close>.
\<close>

fun collectFails :: "(int \<Rightarrow> int) \<Rightarrow> int \<Rightarrow> (string + 'a) list \<Rightarrow> Failure list" where
  "collectFails clock i [] = []"
| "collectFails clock i (Inl rejectReason # rest) =
     \<lparr>reason = rejectReason, timestamp = clock i\<rparr> # collectFails clock (i + 1) rest"
| "collectFails clock i (Inr r # rest) = collectFails clock (i + 1) rest"

text \<open>
  Lines 273-317. The receipt requests run concurrently; their hooks only add to the
  counters, so they are threaded in the order of the transactions.
\<close>

definition processBlock ::
  "int \<Rightarrow> TestConfig \<Rightarrow> blockEnv \<Rightarrow> int \<Rightarrow> vars \<Rightarrow> vars \<times> (error + Failure list)" where
  "processBlock idx cfg provider blockNumber v =
     (let v1 = perform (getBlock provider) v
      in case outcome (getBlock provider) of
           Inl err \<Rightarrow> (v1, Inl (Rejected err))
         | Inr None \<Rightarrow> (v1, Inl (CantFindBlock blockNumber))
         | Inr (Some blk) \<Rightarrow>
             (let txs = transactions blk;
                  promises = map (getTransactionReceipt provider) txs;
                  v2 = foldl (\<lambda>w p. perform p w) v1 promises;
                  receipts = Promise_allSettled (map outcome promises);
                  fails = collectFails (examinedAt provider) 0 receipts
              in (v2, Inr fails)))"

section \<open>The scheduler loop\<close>

text \<open>
  \<^verbatim>\<open>Promise.all\<close> over promises that settle at known instants: it fulfils with all the
  values once the last promise has fulfilled, and it rejects as soon as one promise rejects,
  with the reason of the earliest rejection (the leftmost of several at one instant); the
  other promises keep running and their outcomes are dropped.
\<close>

fun firstRejection :: "(nat \<times> ('e + 'a)) list \<Rightarrow> (nat \<times> 'e) option" where
  "firstRejection [] = None"
| "firstRejection ((t, Inl e) # ps) =
     (case firstRejection ps of
        None \<Rightarrow> Some (t, e)
      | Some (t', e') \<Rightarrow> if t' < t then Some (t', e') else Some (t, e))"
| "firstRejection ((t, Inr a) # ps) = firstRejection ps"

fun fulfilled :: "(nat \<times> ('e + 'a)) list \<Rightarrow> 'a list" where
  "fulfilled [] = []"
| "fulfilled ((t, Inl e) # ps) = fulfilled ps"
| "fulfilled ((t, Inr a) # ps) = a # fulfilled ps"

definition Promise_all :: "(nat \<times> ('e + 'a)) list \<Rightarrow> nat \<times> ('e + 'a list)" where
  "Promise_all ps =
     (case firstRejection ps of
        Some (t, e) \<Rightarrow> (t, Inl e)
      | None \<Rightarrow> (fold max (map fst ps) 0, Inr (fulfilled ps)))"

text \<open>
  What one iteration of the \<^verbatim>\<open>while (true)\<close> loop meets: the reading of \<^verbatim>\<open>Date.now()\<close>
  at line 370, the answer to the poll \<^verbatim>\<open>provider.getBlockNumber()\<close>, and the behaviour of
  the node for each block number that may be dispatched.
\<close>

record iterEnv =
  loopStartTime :: int
  getBlockNumber :: "int rpc"
  blockEnvs :: "int \<Rightarrow> blockEnv"

text \<open>
  Lines 395-398: the invocations of a batch. They run concurrently; each changes the
  counters only by adding to them, so the counters after the batch do not depend on the
  interleaving, and the invocations are threaded in the order of the dispatch. The hooks of
  every dispatched invocation are accounted to the iteration that dispatched it.
\<close>

fun dispatch ::
  "int \<Rightarrow> TestConfig \<Rightarrow> (int \<Rightarrow> blockEnv) \<Rightarrow> int list \<Rightarrow> vars
     \<Rightarrow> vars \<times> (nat \<times> (error + Failure list)) list" where
  "dispatch idx cfg provider [] v = (v, [])"
| "dispatch idx cfg provider (n # ns) v =
     (let (v1, r) = processBlock idx cfg (provider n) n v;
          (v2, rs) = dispatch idx cfg provider ns v1
      in (v2, (settlesAt (provider n), r) # rs))"

text \<open>\<^verbatim>\<open>String.prototype.includes\<close>.\<close>

fun str_includes :: "string \<Rightarrow> string \<Rightarrow> bool" where
  "str_includes [] sub = (sub = [])"
| "str_includes (c # s) sub = (take (length sub) (c # s) = sub \<or> str_includes s sub)"

text \<open>Lines 401-411: the two nested loops over the results of the batch.\<close>

definition tallyFailure :: "vars \<times> bool \<Rightarrow> Failure \<Rightarrow> vars \<times> bool" where
  "tallyFailure st f =
     (let v = fst st;
          v1 = v\<lparr>failCalls := failCalls v + 1\<rparr>;
          v2 = (if str_includes (reason f) ''timeout''
                then v1\<lparr>timeoutCalls := timeoutCalls v1 + 1\<rparr> else v1)
      in (v2, True))"

definition tally :: "Failure list list \<Rightarrow> vars \<Rightarrow> vars \<times> bool" where
  "tally results v = foldl (\<lambda>st fs. foldl tallyFailure st fs) (v, False) results"

text \<open>The two stopping conditions, lines 365 and 371.\<close>

definition reachedFinishBlock :: "TestConfig \<Rightarrow> vars \<Rightarrow> bool" where
  "reachedFinishBlock cfg v =
     (case cfg_finishBlockNumber cfg of
        None \<Rightarrow> False
      | Some finishBlockNumber \<Rightarrow> currBlockNumber v > finishBlockNumber)"

definition reachedTargetTime :: "TestConfig \<Rightarrow> int \<Rightarrow> bool" where
  "reachedTargetTime cfg now =
     (case cfg_targetRunningTimeMs cfg of
        None \<Rightarrow> False
      | Some t \<Rightarrow> now - cfg_startTimeMs cfg \<ge> t)"

definition say :: "event list \<Rightarrow> vars \<Rightarrow> vars" where
  "say es v = v\<lparr>events := events v @ es\<rparr>"

datatype step = Break | Exit int | Continue vars

text \<open>
  Lines 396-398: the block numbers handed to \<^verbatim>\<open>processBlock\<close>, one for each
  \<^verbatim>\<open>batchIdx\<close> from 0 below \<^verbatim>\<open>batchSize\<close>.
\<close>

definition batchNumbers :: "int \<Rightarrow> int \<Rightarrow> int list" where
  "batchNumbers current batchSize = map (\<lambda>batchIdx. current + batchIdx + 1) (upto 0 (batchSize - 1))"

text \<open>
  The earlier revision of the loop (the first text of the file, lines 138-140) hands
  \<^verbatim>\<open>currBlockNumber + batchIdx\<close> to \<^verbatim>\<open>processBlock\<close>.
\<close>

definition batchNumbers_earlier :: "int \<Rightarrow> int \<Rightarrow> int list" where
  "batchNumbers_earlier current batchSize = map (\<lambda>batchIdx. current + batchIdx) (upto 0 (batchSize - 1))"

text \<open>
  Lines 370-423, one pass through the body of the loop after the test of the finish block.
  \<^verbatim>\<open>let prevLatestBlockNumber = 0\<close> stands inside the loop body (line 377), so every
  pass starts from 0; the assignment of line 386 is followed by no further read.
\<close>

definition iteration :: "int \<Rightarrow> TestConfig \<Rightarrow> iterEnv \<Rightarrow> vars \<Rightarrow> step" where
  "iteration idx cfg env v =
     (if reachedTargetTime cfg (loopStartTime env) then Break
      else
        let prevLatestBlockNumber = (0::int);
            v1 = perform (getBlockNumber env) v
        in case outcome (getBlockNumber env) of
             Inl err \<Rightarrow> Continue (say [Caught (Rejected err)] v1)
           | Inr latestBlockNumber \<Rightarrow>
               if prevLatestBlockNumber \<noteq> 0 \<and> prevLatestBlockNumber > latestBlockNumber
               then Exit 1
               else if currBlockNumber v1 \<ge> latestBlockNumber
               then Continue (say [Slept 200] v1)
               else
                 let batchSize = min (cfg_batchSize cfg) (latestBlockNumber - currBlockNumber v1);
                     numbers = batchNumbers (currBlockNumber v1) batchSize;
                     (v2, promises) = dispatch idx cfg (blockEnvs env) numbers v1;
                     v3 = say [Dispatched numbers] v2
                 in (case Promise_all promises of
                       (t, Inl err) \<Rightarrow> Continue (say [Joined t, Caught err] v3)
                     | (t, Inr results) \<Rightarrow>
                         (let (v4, isFailed) = tally results (say [Joined t] v3);
                              v5 = (if isFailed then say [FailedButSkip] v4 else v4);
                              v6 = say [BatchFinished (currBlockNumber v5) batchSize] v5
                          in Continue (v6\<lparr>currBlockNumber := currBlockNumber v6 + batchSize\<rparr>))))"

text \<open>
  The loop, run against the iterations the environment scripts. \<open>Unfinished\<close> is the loop
  that is still running when the script ends; \<open>Exited\<close> is \<^verbatim>\<open>process.exit\<close>.
\<close>

datatype loopEnd = Stopped vars | Exited int | Unfinished vars

fun loop :: "int \<Rightarrow> TestConfig \<Rightarrow> iterEnv list \<Rightarrow> vars \<Rightarrow> loopEnd" where
  "loop idx cfg [] v = (if reachedFinishBlock cfg v then Stopped v else Unfinished v)"
| "loop idx cfg (env # envs) v =
     (if reachedFinishBlock cfg v then Stopped v
      else case iteration idx cfg env v of
             Break \<Rightarrow> Stopped v
           | Exit code \<Rightarrow> Exited code
           | Continue v' \<Rightarrow> loop idx cfg envs v')"

record runEnv =
  initialTip :: "int rpc"
  iterations :: "iterEnv list"
  returnedAt :: int

datatype run = Returned TestResult | ProcessExit int | Thrown error | Running vars

definition initialVars :: vars where
  "initialVars = \<lparr>totalReqs = 0, totalCalls = 0, totalCallMs = 0, failCalls = 0,
     timeoutCalls = 0, retryCalls = 0, currBlockNumber = 0, events = []\<rparr>"

text \<open>Lines 359-361: the start block is the configured one, or else the tip polled once.\<close>

definition resolveStart :: "TestConfig \<Rightarrow> runEnv \<Rightarrow> vars \<Rightarrow> vars \<times> (string + int)" where
  "resolveStart cfg env v =
     (case cfg_startBlockNumber cfg of
        Some n \<Rightarrow> (v, Inr n)
      | None \<Rightarrow> (perform (initialTip env) v, outcome (initialTip env)))"

definition makeResult :: "int \<Rightarrow> TestConfig \<Rightarrow> int \<Rightarrow> int \<Rightarrow> vars \<Rightarrow> TestResult" where
  "makeResult idx cfg startBlockNumber now v =
     \<lparr>res_idx = idx, res_calls = totalCalls v, res_failCalls = failCalls v,
      res_retryCalls = retryCalls v, res_finishTimeMs = now,
      res_startBlockNumber = startBlockNumber,
      res_finishBlockNumber = currBlockNumber v - 1,
      res_totalCallMs = totalCallMs v, res_rpcUrl = cfg_rpcUrl cfg\<rparr>"

definition startScheduler :: "int \<Rightarrow> TestConfig \<Rightarrow> runEnv \<Rightarrow> run" where
  "startScheduler idx cfg env =
     (case resolveStart cfg env initialVars of
        (v1, Inl err) \<Rightarrow> Thrown (Rejected err)
      | (v1, Inr startBlockNumber) \<Rightarrow>
          (case loop idx cfg (iterations env) (v1\<lparr>currBlockNumber := startBlockNumber\<rparr>) of
             Stopped v \<Rightarrow> Returned (makeResult idx cfg startBlockNumber (returnedAt env) v)
           | Exited code \<Rightarrow> ProcessExit code
           | Unfinished v \<Rightarrow> Running v))"

section \<open>The summary of \<^verbatim>\<open>main\<close>\<close>








section \<open>Observations on runs\<close>

text \<open>
  The notions the properties below are stated with. None of them is part of the program:
  they read the variables of \<^verbatim>\<open>startScheduler\<close> and the events of a run.
\<close>

text \<open>
  What the hooks of the HTTP client may do to the variables: count requests and calls, and
  nothing else.
\<close>

definition hooked :: "vars \<Rightarrow> vars \<Rightarrow> bool" where
  "hooked v v' =
     (totalReqs v \<le> totalReqs v' \<and> totalCalls v \<le> totalCalls v'
      \<and> failCalls v' = failCalls v \<and> timeoutCalls v' = timeoutCalls v
      \<and> retryCalls v' = retryCalls v \<and> currBlockNumber v' = currBlockNumber v
      \<and> events v' = events v)"

text \<open>
  The order between two readings of the counters: no count decreases, the timeout count
  grows by no more than the failure count does, and the retry count stays.
\<close>

definition grows :: "vars \<Rightarrow> vars \<Rightarrow> bool" where
  "grows v v' =
     (totalReqs v \<le> totalReqs v' \<and> totalCalls v \<le> totalCalls v'
      \<and> failCalls v \<le> failCalls v' \<and> timeoutCalls v \<le> timeoutCalls v'
      \<and> timeoutCalls v' - timeoutCalls v \<le> failCalls v' - failCalls v
      \<and> retryCalls v' = retryCalls v)"


definition isTimeout :: "Failure \<Rightarrow> bool" where
  "isTimeout f = str_includes (reason f) ''timeout''"

text \<open>The batches dispatched and the sleeps taken, in the order of the events.\<close>

fun dispatches :: "event list \<Rightarrow> int list list" where
  "dispatches [] = []"
| "dispatches (Dispatched ns # es) = ns # dispatches es"
| "dispatches (e # es) = dispatches es"

fun sleeps :: "event list \<Rightarrow> int list" where
  "sleeps [] = []"
| "sleeps (Slept ms # es) = ms # sleeps es"
| "sleeps (e # es) = sleeps es"

definition stepEvents :: "step \<Rightarrow> event list" where
  "stepEvents s = (case s of Continue v \<Rightarrow> events v | _ \<Rightarrow> [])"

text \<open>
  An invocation of \<^verbatim>\<open>processBlock\<close> raises; whether it does is independent of the
  counters it starts from (\<open>raises_any\<close> below).
\<close>

definition raises :: "int \<Rightarrow> TestConfig \<Rightarrow> blockEnv \<Rightarrow> int \<Rightarrow> bool" where
  "raises idx cfg provider blockNumber =
     isl (snd (processBlock idx cfg provider blockNumber initialVars))"

text \<open>
  An iteration that polls the tip \<open>latest\<close>, ahead of the pointer, and dispatches a batch:
  the time bound is not reached and the poll is answered.
\<close>

definition dispatching :: "TestConfig \<Rightarrow> iterEnv \<Rightarrow> vars \<Rightarrow> int \<Rightarrow> bool" where
  "dispatching cfg env v latest =
     (\<not> reachedTargetTime cfg (loopStartTime env)
      \<and> outcome (getBlockNumber env) = Inr latest
      \<and> currBlockNumber v < latest)"

text \<open>The width and the block numbers of the batch such an iteration dispatches.\<close>

definition width :: "TestConfig \<Rightarrow> vars \<Rightarrow> int \<Rightarrow> int" where
  "width cfg v latest = min (cfg_batchSize cfg) (latest - currBlockNumber v)"

definition batchOf :: "TestConfig \<Rightarrow> vars \<Rightarrow> int \<Rightarrow> int list" where
  "batchOf cfg v latest = batchNumbers (currBlockNumber v) (width cfg v latest)"

definition someRaises :: "int \<Rightarrow> TestConfig \<Rightarrow> iterEnv \<Rightarrow> vars \<Rightarrow> int \<Rightarrow> bool" where
  "someRaises idx cfg env v latest =
     (\<exists>n \<in> set (batchOf cfg v latest). raises idx cfg (blockEnvs env n) n)"

text \<open>
  An iteration that dispatches a batch in which some invocation raises, and the batch it
  dispatches, both read off the tip it polls.
\<close>

definition failing :: "int \<Rightarrow> TestConfig \<Rightarrow> vars \<Rightarrow> iterEnv \<Rightarrow> bool" where
  "failing idx cfg v env =
     (case outcome (getBlockNumber env) of
        Inl err \<Rightarrow> False
      | Inr latest \<Rightarrow> dispatching cfg env v latest \<and> someRaises idx cfg env v latest)"

definition retried :: "TestConfig \<Rightarrow> vars \<Rightarrow> iterEnv \<Rightarrow> int list" where
  "retried cfg v env =
     (case outcome (getBlockNumber env) of
        Inl err \<Rightarrow> []
      | Inr latest \<Rightarrow> batchOf cfg v latest)"

definition endEvents :: "loopEnd \<Rightarrow> event list" where
  "endEvents e = (case e of Stopped v \<Rightarrow> events v | Unfinished v \<Rightarrow> events v | Exited code \<Rightarrow> [])"

definition endPointer :: "loopEnd \<Rightarrow> int option" where
  "endPointer e =
     (case e of Stopped v \<Rightarrow> Some (currBlockNumber v)
              | Unfinished v \<Rightarrow> Some (currBlockNumber v)
              | Exited code \<Rightarrow> None)"

section \<open>Sample environments\<close>

text \<open>
  Concrete answers of the node, used to run the model: a call that is answered, a call that
  times out without a response, a call that is answered with status 429 (the script holds a
  second attempt, which is sent only if the retry hook asks for it), and blocks built from
  them.
\<close>

definition answered :: "'a \<Rightarrow> 'a rpc" where
  "answered x =
     \<lparr>requests = [[\<lparr>sentAt = 100, response = Some \<lparr>statusCode = 200, receivedAt = 130\<rparr>\<rparr>]],
      outcome = Inr x\<rparr>"

definition timedOut :: "'a rpc" where
  "timedOut =
     \<lparr>requests = [[\<lparr>sentAt = 100, response = None\<rparr>]],
      outcome = Inl ''Error: request timeout (code=TIMEOUT)''\<rparr>"

definition refused :: "'a rpc" where
  "refused =
     \<lparr>requests = [[\<lparr>sentAt = 100, response = Some \<lparr>statusCode = 429, receivedAt = 110\<rparr>\<rparr>,
                   \<lparr>sentAt = 120, response = Some \<lparr>statusCode = 200, receivedAt = 125\<rparr>\<rparr>]],
      outcome = Inl ''Error: server response 429 Too Many Requests''\<rparr>"

definition quietBlock :: blockEnv where
  "quietBlock =
     \<lparr>getBlock = answered (Some \<lparr>transactions = []\<rparr>),
      getTransactionReceipt = (\<lambda>tx. answered None),
      examinedAt = (\<lambda>i. 200),
      settlesAt = 1\<rparr>"

definition busyBlock :: blockEnv where
  "busyBlock =
     \<lparr>getBlock = answered (Some \<lparr>transactions = [''0xa'', ''0xb'', ''0xc'']\<rparr>),
      getTransactionReceipt =
        (\<lambda>tx. if tx = ''0xb'' then timedOut
              else if tx = ''0xc'' then refused
              else answered (Some (Receipt tx))),
      examinedAt = (\<lambda>i. 200 + i),
      settlesAt = 5\<rparr>"


definition absentBlock :: blockEnv where
  "absentBlock =
     \<lparr>getBlock = answered None,
      getTransactionReceipt = (\<lambda>tx. answered None),
      examinedAt = (\<lambda>i. 200),
      settlesAt = 1\<rparr>"

definition unreachableBlock :: blockEnv where
  "unreachableBlock =
     \<lparr>getBlock = timedOut,
      getTransactionReceipt = (\<lambda>tx. answered None),
      examinedAt = (\<lambda>i. 200),
      settlesAt = 1\<rparr>"

definition poll :: "int \<Rightarrow> (int \<Rightarrow> blockEnv) \<Rightarrow> iterEnv" where
  "poll tip blocks = \<lparr>loopStartTime = 1000, getBlockNumber = answered tip, blockEnvs = blocks\<rparr>"

definition sampleConfig :: "int \<Rightarrow> int option \<Rightarrow> int \<Rightarrow> TestConfig" where
  "sampleConfig start finish batch =
     \<lparr>cfg_startTimeMs = 0, cfg_startBlockNumber = Some start, cfg_finishBlockNumber = finish,
      cfg_targetRunningTimeMs = None, cfg_rpcUrl = ''http://node'', cfg_batchSize = batch\<rparr>"

definition script :: "iterEnv list \<Rightarrow> runEnv" where
  "script its = \<lparr>initialTip = answered 0, iterations = its, returnedAt = 2000\<rparr>"

section \<open>Properties of the parts\<close>

subsection \<open>The hooks leave the failure counters, the pointer and the events alone\<close>

lemma hooked_refl: "hooked v v"
  by (simp add: hooked_def)

lemma hooked_trans: "hooked u v \<Longrightarrow> hooked v w \<Longrightarrow> hooked u w"
  by (simp add: hooked_def)

lemma send_step:
  "send n (a # later) v =
     (case response a of
        None \<Rightarrow> v\<lparr>totalReqs := totalReqs v + 1\<rparr>
      | Some resp \<Rightarrow> v\<lparr>totalReqs := totalReqs v + 1, totalCalls := totalCalls v + 1,
                       totalCallMs := totalCallMs v + (receivedAt resp - sentAt a)\<rparr>)"
  by (simp add: preflightFunc_def processFunc_def retryFunc_def Let_def split: option.split)

lemma hooked_send: "hooked v (send n as v)"
proof (cases as)
  case Nil
  then show ?thesis by (simp add: hooked_def)
next
  case (Cons a later)
  then show ?thesis
    by (simp add: send_step hooked_def del: send.simps split: option.split)
qed

lemma hooked_foldl_send: "hooked v (foldl (\<lambda>w r. send 0 r w) v rs)"
proof (induction rs arbitrary: v)
  case Nil
  show ?case by (simp add: hooked_refl)
next
  case (Cons r rs)
  have "hooked v (send 0 r v)" by (rule hooked_send)
  moreover have "hooked (send 0 r v) (foldl (\<lambda>w r. send 0 r w) (send 0 r v) rs)"
    by (rule Cons.IH)
  ultimately show ?case using hooked_trans by simp
qed

lemma hooked_perform: "hooked v (perform call v)"
  by (simp add: perform_def hooked_foldl_send)

lemma hooked_foldl_perform: "hooked v (foldl (\<lambda>w p. perform p w) v ps)"
proof (induction ps arbitrary: v)
  case Nil
  show ?case by (simp add: hooked_refl)
next
  case (Cons p ps)
  have "hooked v (perform p v)" by (rule hooked_perform)
  moreover have "hooked (perform p v) (foldl (\<lambda>w p. perform p w) (perform p v) ps)"
    by (rule Cons.IH)
  ultimately show ?case using hooked_trans by simp
qed

lemma hooked_processBlock: "hooked v (fst (processBlock idx cfg provider blockNumber v))"
  by (simp add: processBlock_def Let_def hooked_perform
      hooked_trans [OF hooked_perform hooked_foldl_perform] split: sum.split option.split)

lemma snd_processBlock_indep:
  "snd (processBlock idx cfg provider blockNumber v) = snd (processBlock idx cfg provider blockNumber w)"
  by (simp add: processBlock_def Let_def split: sum.split option.split)

lemma hooked_dispatch: "hooked v (fst (dispatch idx cfg provider ns v))"
proof (induction ns arbitrary: v)
  case Nil
  show ?case by (simp add: hooked_refl)
next
  case (Cons n ns)
  obtain v1 r where p: "processBlock idx cfg (provider n) n v = (v1, r)"
    by (cases "processBlock idx cfg (provider n) n v")
  obtain v2 rs where d: "dispatch idx cfg provider ns v1 = (v2, rs)"
    by (cases "dispatch idx cfg provider ns v1")
  have "hooked v v1" using hooked_processBlock [of v idx cfg "provider n" n] p by simp
  moreover have "hooked v1 v2" using Cons.IH [of v1] d by simp
  ultimately show ?case using p d hooked_trans by simp
qed

lemma snd_dispatch:
  "snd (dispatch idx cfg provider ns v) =
     map (\<lambda>n. (settlesAt (provider n), snd (processBlock idx cfg (provider n) n initialVars))) ns"
proof (induction ns arbitrary: v)
  case Nil
  show ?case by simp
next
  case (Cons n ns)
  obtain v1 r where p: "processBlock idx cfg (provider n) n v = (v1, r)"
    by (cases "processBlock idx cfg (provider n) n v")
  obtain v2 rs where d: "dispatch idx cfg provider ns v1 = (v2, rs)"
    by (cases "dispatch idx cfg provider ns v1")
  have "r = snd (processBlock idx cfg (provider n) n initialVars)"
    using p snd_processBlock_indep [of idx cfg "provider n" n v initialVars] by simp
  moreover have "rs = map (\<lambda>n. (settlesAt (provider n), snd (processBlock idx cfg (provider n) n initialVars))) ns"
    using Cons.IH [of v1] d by simp
  ultimately show ?case using p d by simp
qed

subsection \<open>The tally adds one failure per record and one timeout per matching record\<close>

lemma foldl_tallyFailure:
  "foldl tallyFailure (v, b) fs =
     (v\<lparr>failCalls := failCalls v + int (length fs),
        timeoutCalls := timeoutCalls v + int (length (filter isTimeout fs))\<rparr>,
      b \<or> fs \<noteq> [])"
proof (induction fs arbitrary: v b)
  case Nil
  show ?case by simp
next
  case (Cons f fs)
  have step: "tallyFailure (v, b) f =
      (v\<lparr>failCalls := failCalls v + 1,
         timeoutCalls := timeoutCalls v + (if isTimeout f then 1 else 0)\<rparr>, True)"
    by (simp add: tallyFailure_def Let_def isTimeout_def)
  show ?case
    unfolding foldl_Cons step Cons.IH by simp
qed

lemma tally_eq:
  "tally results v =
     (v\<lparr>failCalls := failCalls v + int (length (concat results)),
        timeoutCalls := timeoutCalls v + int (length (filter isTimeout (concat results)))\<rparr>,
      concat results \<noteq> [])"
proof -
  have "foldl (\<lambda>st fs. foldl tallyFailure st fs) (w, b) results =
     (w\<lparr>failCalls := failCalls w + int (length (concat results)),
        timeoutCalls := timeoutCalls w + int (length (filter isTimeout (concat results)))\<rparr>,
      b \<or> concat results \<noteq> [])" for w b
  proof (induction results arbitrary: w b)
    case Nil
    show ?case by simp
  next
    case (Cons fs results)
    show ?case
      unfolding foldl_Cons foldl_tallyFailure Cons.IH by auto
  qed
  then show ?thesis by (simp add: tally_def)
qed

subsection \<open>The join\<close>

lemma firstRejection_None:
  "(firstRejection ps = None) = (\<forall>p \<in> set ps. \<not> isl (snd p))"
  by (induction ps rule: firstRejection.induct) (auto split: option.split)





subsection \<open>One iteration\<close>

lemma dispatches_append: "dispatches (xs @ ys) = dispatches xs @ dispatches ys"
  by (induction xs rule: dispatches.induct) simp_all

lemma sleeps_append: "sleeps (xs @ ys) = sleeps xs @ sleeps ys"
  by (induction xs rule: sleeps.induct) simp_all

lemma batchNumbers_upto: "batchNumbers c w = [c + 1..c + w]"
proof (rule nth_equalityI)
  show "length (batchNumbers c w) = length [c + 1..c + w]"
    by (simp add: batchNumbers_def)
next
  fix i
  assume "i < length (batchNumbers c w)"
  then have i: "int i \<le> w - 1"
    by (simp add: batchNumbers_def)
  then show "batchNumbers c w ! i = [c + 1..c + w] ! i"
    by (simp add: batchNumbers_def)
qed

lemma batchNumbers_earlier_upto: "batchNumbers_earlier c w = [c..c + w - 1]"
proof (rule nth_equalityI)
  show "length (batchNumbers_earlier c w) = length [c..c + w - 1]"
    by (simp add: batchNumbers_earlier_def)
next
  fix i
  assume "i < length (batchNumbers_earlier c w)"
  then have i: "int i \<le> w - 1"
    by (simp add: batchNumbers_earlier_def)
  then show "batchNumbers_earlier c w ! i = [c..c + w - 1] ! i"
    by (simp add: batchNumbers_earlier_def)
qed

lemma isl_processBlock:
  "isl (snd (processBlock idx cfg provider blockNumber v)) =
     (case outcome (getBlock provider) of Inr (Some blk) \<Rightarrow> False | _ \<Rightarrow> True)"
  by (simp add: processBlock_def Let_def split: sum.split option.split)

lemma raises_any: "isl (snd (processBlock idx cfg provider blockNumber v)) = raises idx cfg provider blockNumber"
  by (simp add: raises_def isl_processBlock)

lemma iteration_unfold:
  assumes "\<not> reachedTargetTime cfg (loopStartTime env)"
    and "outcome (getBlockNumber env) = Inr latest"
    and "currBlockNumber v < latest"
  shows "iteration idx cfg env v =
     (let batchSize = min (cfg_batchSize cfg) (latest - currBlockNumber v);
          numbers = batchNumbers (currBlockNumber v) batchSize;
          d = dispatch idx cfg (blockEnvs env) numbers (perform (getBlockNumber env) v);
          v3 = say [Dispatched numbers] (fst d)
      in (case Promise_all (snd d) of
            (t, Inl err) \<Rightarrow> Continue (say [Joined t, Caught err] v3)
          | (t, Inr results) \<Rightarrow>
              (let st = tally results (say [Joined t] v3);
                   v5 = (if snd st then say [FailedButSkip] (fst st) else fst st);
                   v6 = say [BatchFinished (currBlockNumber v5) batchSize] v5
               in Continue (v6\<lparr>currBlockNumber := currBlockNumber v6 + batchSize\<rparr>))))"
proof -
  have c: "currBlockNumber (perform (getBlockNumber env) v) = currBlockNumber v"
    using hooked_perform [of v "getBlockNumber env"] by (simp add: hooked_def)
  show ?thesis
    using assms by (simp add: iteration_def Let_def c case_prod_beta)
qed

lemma dispatch_outcomes:
  "map snd (snd (dispatch idx cfg provider ns v)) =
     map (\<lambda>n. snd (processBlock idx cfg (provider n) n initialVars)) ns"
  by (simp add: snd_dispatch comp_def)

lemma dispatch_rejects:
  "(firstRejection (snd (dispatch idx cfg provider ns v)) = None) =
     (\<forall>n \<in> set ns. \<not> raises idx cfg (provider n) n)"
  by (simp add: firstRejection_None snd_dispatch raises_def)

lemma iteration_raise:
  assumes "\<not> reachedTargetTime cfg (loopStartTime env)"
    and "outcome (getBlockNumber env) = Inr latest"
    and "currBlockNumber v < latest"
    and "\<exists>n \<in> set (batchNumbers (currBlockNumber v) (min (cfg_batchSize cfg) (latest - currBlockNumber v))).
           raises idx cfg (blockEnvs env n) n"
  shows "\<exists>v' t err. iteration idx cfg env v = Continue v'
           \<and> hooked v (v'\<lparr>events := events v\<rparr>)
           \<and> events v' = events v @
               [Dispatched (batchNumbers (currBlockNumber v) (min (cfg_batchSize cfg) (latest - currBlockNumber v))),
                Joined t, Caught err]"
proof -
  let ?numbers = "batchNumbers (currBlockNumber v) (min (cfg_batchSize cfg) (latest - currBlockNumber v))"
  let ?d = "dispatch idx cfg (blockEnvs env) ?numbers (perform (getBlockNumber env) v)"
  have "firstRejection (snd ?d) \<noteq> None"
    using assms(4) by (simp add: dispatch_rejects)
  then obtain t err where r: "firstRejection (snd ?d) = Some (t, err)"
    by (cases "firstRejection (snd ?d)") auto
  have pa: "Promise_all (snd ?d) = (t, Inl err)"
    by (simp add: Promise_all_def r)
  have it: "iteration idx cfg env v = Continue (say [Joined t, Caught err] (say [Dispatched ?numbers] (fst ?d)))"
    by (simp add: iteration_unfold [OF assms(1-3)] Let_def pa)
  have h: "hooked v (fst ?d)"
    using hooked_trans [OF hooked_perform hooked_dispatch] .
  show ?thesis
    using it h by (simp add: say_def hooked_def)
qed

lemma iteration_success:
  assumes "\<not> reachedTargetTime cfg (loopStartTime env)"
    and "outcome (getBlockNumber env) = Inr latest"
    and "currBlockNumber v < latest"
    and "\<forall>n \<in> set (batchNumbers (currBlockNumber v) (min (cfg_batchSize cfg) (latest - currBlockNumber v))).
           \<not> raises idx cfg (blockEnvs env n) n"
  shows "\<exists>v' t rest. iteration idx cfg env v = Continue v'
           \<and> grows v v'
           \<and> currBlockNumber v' = currBlockNumber v + min (cfg_batchSize cfg) (latest - currBlockNumber v)
           \<and> events v' = events v @
               [Dispatched (batchNumbers (currBlockNumber v) (min (cfg_batchSize cfg) (latest - currBlockNumber v))),
                Joined t] @ rest
           \<and> dispatches rest = [] \<and> sleeps rest = []"
proof -
  let ?w = "min (cfg_batchSize cfg) (latest - currBlockNumber v)"
  let ?numbers = "batchNumbers (currBlockNumber v) ?w"
  let ?d = "dispatch idx cfg (blockEnvs env) ?numbers (perform (getBlockNumber env) v)"
  have r: "firstRejection (snd ?d) = None"
    using assms(4) by (simp add: dispatch_rejects)
  obtain t results where pa: "Promise_all (snd ?d) = (t, Inr results)"
    by (simp add: Promise_all_def r)
  have h: "hooked v (fst ?d)"
    using hooked_trans [OF hooked_perform hooked_dispatch] .
  show ?thesis
    using h by (simp add: iteration_unfold [OF assms(1-3)] Let_def pa tally_eq say_def hooked_def grows_def)
qed

subsection \<open>The loop\<close>

lemma grows_refl: "grows v v"
  by (simp add: grows_def)

lemma grows_trans: "grows u v \<Longrightarrow> grows v w \<Longrightarrow> grows u w"
  by (simp add: grows_def)


lemma iteration_never_exits: "iteration idx cfg env v \<noteq> Exit code"
  by (simp add: iteration_def Let_def case_prod_beta split: sum.split)

lemma iteration_grows:
  assumes "iteration idx cfg env v = Continue v'"
  shows "grows v v'"
proof -
  let ?v1 = "perform (getBlockNumber env) v"
  have h1: "hooked v ?v1" by (rule hooked_perform)
  have t: "\<not> reachedTargetTime cfg (loopStartTime env)"
    using assms by (auto simp: iteration_def)
  show ?thesis
  proof (cases "outcome (getBlockNumber env)")
    case (Inl err)
    then have "v' = say [Caught (Rejected err)] ?v1"
      using assms t by (simp add: iteration_def Let_def)
    then show ?thesis
      using h1 by (simp add: say_def hooked_def grows_def)
  next
    case (Inr latest)
    show ?thesis
    proof (cases "currBlockNumber v < latest")
      case False
      then have "currBlockNumber ?v1 \<ge> latest"
        using h1 by (simp add: hooked_def)
      then have "v' = say [Slept 200] ?v1"
        using assms t Inr by (simp add: iteration_def Let_def)
      then show ?thesis
        using h1 by (simp add: say_def hooked_def grows_def)
    next
      case True
      let ?numbers = "batchNumbers (currBlockNumber v) (min (cfg_batchSize cfg) (latest - currBlockNumber v))"
      show ?thesis
      proof (cases "\<exists>n \<in> set ?numbers. raises idx cfg (blockEnvs env n) n")
        case True
        from iteration_raise [OF t Inr \<open>currBlockNumber v < latest\<close> True]
        obtain w where "iteration idx cfg env v = Continue w" and "hooked v (w\<lparr>events := events v\<rparr>)"
          by blast
        then show ?thesis using assms by (simp add: hooked_def grows_def)
      next
        case False
        then have "\<forall>n \<in> set ?numbers. \<not> raises idx cfg (blockEnvs env n) n" by simp
        from iteration_success [OF t Inr \<open>currBlockNumber v < latest\<close> this]
        obtain w where "iteration idx cfg env v = Continue w" and "grows v w"
          by blast
        then show ?thesis using assms by simp
      qed
    qed
  qed
qed

lemma loop_never_exits: "loop idx cfg envs v \<noteq> Exited code"
  by (induction envs arbitrary: v) (auto simp: iteration_never_exits split: step.split)

lemma loop_grows:
  "loop idx cfg envs v = Stopped v' \<or> loop idx cfg envs v = Unfinished v' \<Longrightarrow> grows v v'"
proof (induction envs arbitrary: v)
  case Nil
  then show ?case by (auto simp: grows_refl split: if_splits)
next
  case (Cons env envs)
  show ?case
  proof (cases "reachedFinishBlock cfg v")
    case True
    then show ?thesis using Cons.prems by (auto simp: grows_refl)
  next
    case False
    show ?thesis
    proof (cases "iteration idx cfg env v")
      case Break
      then show ?thesis using Cons.prems False by (auto simp: grows_refl)
    next
      case (Exit code)
      then show ?thesis using iteration_never_exits by blast
    next
      case (Continue w)
      then have "grows v w" by (rule iteration_grows)
      moreover have "grows w v'"
        using Cons.prems False Continue by (intro Cons.IH) simp
      ultimately show ?thesis by (rule grows_trans)
    qed
  qed
qed

lemma resolveStart_hooked: "hooked v (fst (resolveStart cfg env v))"
  by (simp add: resolveStart_def hooked_refl hooked_perform split: option.split)

lemma startScheduler_Returned:
  assumes "startScheduler idx cfg env = Returned r"
  shows "\<exists>s v v'. resolveStart cfg env initialVars = (v, Inr s)
           \<and> loop idx cfg (iterations env) (v\<lparr>currBlockNumber := s\<rparr>) = Stopped v'
           \<and> r = makeResult idx cfg s (returnedAt env) v'"
  using assms
  by (auto simp: startScheduler_def split: prod.splits sum.splits loopEnd.splits)


lemma grows_from_start:
  assumes "resolveStart cfg env initialVars = (v, Inr s)"
    and "loop idx cfg (iterations env) (v\<lparr>currBlockNumber := s\<rparr>) = Stopped v'
         \<or> loop idx cfg (iterations env) (v\<lparr>currBlockNumber := s\<rparr>) = Unfinished v'"
  shows "grows initialVars v'"
proof -
  have "hooked initialVars v"
    using resolveStart_hooked [of initialVars cfg env] assms(1) by simp
  then have "grows initialVars (v\<lparr>currBlockNumber := s\<rparr>)"
    by (simp add: hooked_def grows_def)
  moreover have "grows (v\<lparr>currBlockNumber := s\<rparr>) v'"
    using assms(2) by (rule loop_grows)
  ultimately show ?thesis by (rule grows_trans)
qed


subsection \<open>Iterations that dispatch\<close>

lemma dispatching_raise:
  assumes "dispatching cfg env v latest" and "someRaises idx cfg env v latest"
  shows "\<exists>v' t err. iteration idx cfg env v = Continue v'
           \<and> hooked v (v'\<lparr>events := events v\<rparr>)
           \<and> events v' = events v @ [Dispatched (batchOf cfg v latest), Joined t, Caught err]"
  using assms iteration_raise [of cfg env latest v idx]
  by (simp add: dispatching_def someRaises_def batchOf_def width_def)

lemma dispatching_success:
  assumes "dispatching cfg env v latest" and "\<not> someRaises idx cfg env v latest"
  shows "\<exists>v' t rest. iteration idx cfg env v = Continue v'
           \<and> grows v v'
           \<and> currBlockNumber v' = currBlockNumber v + width cfg v latest
           \<and> events v' = events v @ [Dispatched (batchOf cfg v latest), Joined t] @ rest
           \<and> dispatches rest = [] \<and> sleeps rest = []"
  using assms iteration_success [of cfg env latest v idx]
  by (simp add: dispatching_def someRaises_def batchOf_def width_def)

lemma batchOf_upto:
  "batchOf cfg v latest = [currBlockNumber v + 1..currBlockNumber v + width cfg v latest]"
  by (simp add: batchOf_def batchNumbers_upto)

lemma retry_loop:
  assumes "\<not> reachedFinishBlock cfg v"
    and "\<forall>env \<in> set envs. failing idx cfg v env"
  shows "\<exists>v'. loop idx cfg envs v = Unfinished v'
           \<and> currBlockNumber v' = currBlockNumber v
           \<and> sleeps (events v') = sleeps (events v)
           \<and> dispatches (events v') = dispatches (events v) @ map (retried cfg v) envs"
  using assms
proof (induction envs arbitrary: v)
  case Nil
  then show ?case by simp
next
  case (Cons env envs)
  from Cons.prems(2) have f: "failing idx cfg v env" by simp
  then obtain latest where l: "outcome (getBlockNumber env) = Inr latest"
    and d: "dispatching cfg env v latest" and r: "someRaises idx cfg env v latest"
    by (auto simp: failing_def split: sum.splits)
  from dispatching_raise [OF d r] obtain w t err
    where it: "iteration idx cfg env v = Continue w"
      and h: "hooked v (w\<lparr>events := events v\<rparr>)"
      and ev: "events w = events v @ [Dispatched (batchOf cfg v latest), Joined t, Caught err]"
    by blast
  have c: "currBlockNumber w = currBlockNumber v"
    using h by (simp add: hooked_def)
  have same: "failing idx cfg w e = failing idx cfg v e" "retried cfg w e = retried cfg v e" for e
    using c by (simp_all add: failing_def retried_def dispatching_def someRaises_def
        batchOf_def width_def split: sum.split)
  have "\<not> reachedFinishBlock cfg w"
    using Cons.prems(1) c by (simp add: reachedFinishBlock_def split: option.splits)
  moreover have "\<forall>e \<in> set envs. failing idx cfg w e"
    using Cons.prems(2) same by simp
  ultimately obtain v' where
      "loop idx cfg envs w = Unfinished v'"
      "currBlockNumber v' = currBlockNumber w"
      "sleeps (events v') = sleeps (events w)"
      "dispatches (events v') = dispatches (events w) @ map (retried cfg w) envs"
    using Cons.IH [of w] by blast
  then show ?case
    using Cons.prems(1) it c ev l same
    by (simp add: dispatches_append sleeps_append retried_def)
qed

section \<open>The rollback check\<close>

text \<open>
  \<open>prevLatestBlockNumber\<close> is 0 whenever it is read, so the test of line 382 fails in every
  iteration: no run of the loop ends by \<^verbatim>\<open>process.exit(1)\<close>.
\<close>

lemma rollback_path_unreachable: "startScheduler idx cfg env \<noteq> ProcessExit code"
  by (simp add: startScheduler_def loop_never_exits split: prod.split sum.split loopEnd.split)

text \<open>
  C1. The claim: when a poll observes a tip strictly below the tip of the previous poll, the
  loop terminates through the rollback path and dispatches no further batch. The run below
  starts at block 990 with batch size 5 and polls the tip 1000, then 998. The loop does not
  exit: after the second poll it dispatches the blocks 996 to 998, moves the pointer to 998
  and is still running.
\<close>

theorem rollback_goes_unnoticed:
  "startScheduler 0 (sampleConfig 990 None 5)
     (script [poll 1000 (\<lambda>n. quietBlock), poll 998 (\<lambda>n. quietBlock)]) =
   Running \<lparr>totalReqs = 10, totalCalls = 10, totalCallMs = 300, failCalls = 0,
     timeoutCalls = 0, retryCalls = 0, currBlockNumber = 998,
     events = [Dispatched [991, 992, 993, 994, 995], Joined 1, BatchFinished 990 5,
               Dispatched [996, 997, 998], Joined 1, BatchFinished 995 3]\<rparr>"
  by code_simp

section \<open>The batch that is dispatched\<close>

text \<open>
  C2, as the claim states it, fails: line 397 hands \<^verbatim>\<open>currBlockNumber + batchIdx + 1\<close>
  to \<^verbatim>\<open>processBlock\<close>, so the batch starts one block after the pointer. With the
  pointer at 5, the tip at 8 and a configured batch size of 10 the width is 3 and the
  blocks dispatched are 6, 7, 8, not 5, 6, 7.
\<close>

theorem dispatch_from_pointer_counterexample:
  "width (sampleConfig 5 None 10) (initialVars\<lparr>currBlockNumber := 5\<rparr>) 8 = 3
   \<and> dispatches (stepEvents (iteration 0 (sampleConfig 5 None 10) (poll 8 (\<lambda>n. quietBlock))
         (initialVars\<lparr>currBlockNumber := 5\<rparr>))) = [[6, 7, 8]]
   \<and> dispatches (stepEvents (iteration 0 (sampleConfig 5 None 10) (poll 8 (\<lambda>n. quietBlock))
         (initialVars\<lparr>currBlockNumber := 5\<rparr>))) \<noteq> [[5, 6, 7]]"
  by code_simp

text \<open>
  C2, amended: in every dispatching step, with width = min(configured batch size, tip -
  current pointer), the loop dispatches exactly one block processor invocation per block
  number from current + 1 to current + width (the promises of the batch are, in order, the
  invocations for these numbers): the lowest block number dispatched is the pointer plus
  one, and exactly width consecutive numbers are dispatched.
\<close>

theorem dispatch_after_pointer:
  assumes "dispatching cfg env v latest"
  shows "\<exists>v'. iteration idx cfg env v = Continue v'
           \<and> dispatches (events v') = dispatches (events v) @ [batchOf cfg v latest]
           \<and> batchOf cfg v latest =
               [currBlockNumber v + 1..currBlockNumber v + width cfg v latest]
           \<and> length (batchOf cfg v latest) = nat (width cfg v latest)
           \<and> (0 < width cfg v latest \<longrightarrow> hd (batchOf cfg v latest) = currBlockNumber v + 1)
           \<and> map snd (snd (dispatch idx cfg (blockEnvs env) (batchOf cfg v latest)
                 (perform (getBlockNumber env) v))) =
               map (\<lambda>n. snd (processBlock idx cfg (blockEnvs env n) n initialVars))
                 (batchOf cfg v latest)"
proof -
  have shape: "batchOf cfg v latest =
      [currBlockNumber v + 1..currBlockNumber v + width cfg v latest]"
    by (rule batchOf_upto)
  have len: "length (batchOf cfg v latest) = nat (width cfg v latest)"
    by (simp add: shape)
  have first: "hd (batchOf cfg v latest) = currBlockNumber v + 1" if "0 < width cfg v latest"
    using that by (simp add: shape upto_rec1)
  have ev: "\<exists>v'. iteration idx cfg env v = Continue v'
           \<and> dispatches (events v') = dispatches (events v) @ [batchOf cfg v latest]"
  proof (cases "someRaises idx cfg env v latest")
    case True
    from dispatching_raise [OF assms True] show ?thesis
      by (auto simp: dispatches_append)
  next
    case False
    from dispatching_success [OF assms False] show ?thesis
      by (auto simp: dispatches_append)
  qed
  have each: "map snd (snd (dispatch idx cfg (blockEnvs env) (batchOf cfg v latest)
                 (perform (getBlockNumber env) v))) =
               map (\<lambda>n. snd (processBlock idx cfg (blockEnvs env n) n initialVars))
                 (batchOf cfg v latest)"
    by (rule dispatch_outcomes)
  from ev shape len first each show ?thesis
    by blast
qed

theorem dispatch_after_pointer_witness:
  "dispatching (sampleConfig 5 None 10) (poll 8 (\<lambda>n. quietBlock))
     (initialVars\<lparr>currBlockNumber := 5\<rparr>) 8
   \<and> (\<exists>v'. iteration 0 (sampleConfig 5 None 10) (poll 8 (\<lambda>n. quietBlock))
              (initialVars\<lparr>currBlockNumber := 5\<rparr>) = Continue v'
           \<and> dispatches (events v') = [[6, 7, 8]])
   \<and> batchOf (sampleConfig 5 None 10) (initialVars\<lparr>currBlockNumber := 5\<rparr>) 8 = [6, 7, 8]"
proof -
  let ?cfg = "sampleConfig 5 None 10"
  let ?env = "poll 8 (\<lambda>n. quietBlock)"
  let ?v = "initialVars\<lparr>currBlockNumber := 5\<rparr>"
  have d: "dispatching ?cfg ?env ?v 8"
    by code_simp
  have b: "batchOf ?cfg ?v 8 = [6, 7, 8]"
    by code_simp
  have e: "dispatches (events ?v) = []"
    by (simp add: initialVars_def)
  from dispatch_after_pointer [OF d, of 0] show ?thesis
    using d b e by auto
qed

section \<open>The pointer\<close>

text \<open>
  C3, as the claim states it, fails in its clause on the retry: the iteration after a
  failed batch polls the tip again and computes the width from it, so the range it
  dispatches starts at the same block but need not be the same range. With the pointer at
  5, a configured batch size of 10 and block 6 absent, the poll of tip 8 dispatches 6, 7, 8
  and the next poll, of tip 9, dispatches 6, 7, 8, 9.
\<close>

theorem retried_range_counterexample:
  "someRaises 0 (sampleConfig 5 None 10)
      (poll 8 (\<lambda>n. if n = 6 then absentBlock else quietBlock))
      (initialVars\<lparr>currBlockNumber := 5\<rparr>) 8
   \<and> dispatches (endEvents (loop 0 (sampleConfig 5 None 10)
        [poll 8 (\<lambda>n. if n = 6 then absentBlock else quietBlock),
         poll 9 (\<lambda>n. if n = 6 then absentBlock else quietBlock)]
        (initialVars\<lparr>currBlockNumber := 5\<rparr>))) = [[6, 7, 8], [6, 7, 8, 9]]
   \<and> endPointer (loop 0 (sampleConfig 5 None 10)
        [poll 8 (\<lambda>n. if n = 6 then absentBlock else quietBlock),
         poll 9 (\<lambda>n. if n = 6 then absentBlock else quietBlock)]
        (initialVars\<lparr>currBlockNumber := 5\<rparr>)) = Some 5"
  by code_simp

text \<open>
  C3, amended: for every batch (of a configuration with a non-negative batch size), the
  pointer either advances by exactly the dispatched batch width, when every invocation
  returned without raising, or does not advance at all, when some invocation raised; it is
  never rolled back and never advances partially. After a batch that raised, the loop does
  not sleep, and as long as the following iterations dispatch a batch that raises, however
  many they are, each dispatches again from the same pointer, over the width computed from
  the tip it polls, and the loop is still running at that pointer.
\<close>

theorem pointer_advances_by_width_or_stays:
  assumes "0 \<le> cfg_batchSize cfg"
  shows "(dispatching cfg env v latest \<longrightarrow>
            (\<exists>v'. iteration idx cfg env v = Continue v'
               \<and> (\<not> someRaises idx cfg env v latest
                     \<longrightarrow> currBlockNumber v' = currBlockNumber v + width cfg v latest)
               \<and> (someRaises idx cfg env v latest
                     \<longrightarrow> currBlockNumber v' = currBlockNumber v
                         \<and> sleeps (events v') = sleeps (events v))
               \<and> currBlockNumber v \<le> currBlockNumber v'))
         \<and> (\<not> reachedFinishBlock cfg v \<and> (\<forall>e \<in> set envs. failing idx cfg v e) \<longrightarrow>
            (\<exists>v'. loop idx cfg envs v = Unfinished v'
               \<and> currBlockNumber v' = currBlockNumber v
               \<and> sleeps (events v') = sleeps (events v)
               \<and> dispatches (events v') = dispatches (events v) @ map (retried cfg v) envs))"
proof -
  have step: "\<exists>v'. iteration idx cfg env v = Continue v'
               \<and> (\<not> someRaises idx cfg env v latest
                     \<longrightarrow> currBlockNumber v' = currBlockNumber v + width cfg v latest)
               \<and> (someRaises idx cfg env v latest
                     \<longrightarrow> currBlockNumber v' = currBlockNumber v
                         \<and> sleeps (events v') = sleeps (events v))
               \<and> currBlockNumber v \<le> currBlockNumber v'"
    if d: "dispatching cfg env v latest"
  proof (cases "someRaises idx cfg env v latest")
    case True
    from dispatching_raise [OF d True] show ?thesis
      using True by (auto simp: hooked_def sleeps_append)
  next
    case False
    have "0 \<le> width cfg v latest"
      using assms d by (simp add: width_def dispatching_def)
    with dispatching_success [OF d False] show ?thesis
      using False by auto
  qed
  have again: "\<exists>v'. loop idx cfg envs v = Unfinished v'
               \<and> currBlockNumber v' = currBlockNumber v
               \<and> sleeps (events v') = sleeps (events v)
               \<and> dispatches (events v') = dispatches (events v) @ map (retried cfg v) envs"
    if "\<not> reachedFinishBlock cfg v" and "\<forall>e \<in> set envs. failing idx cfg v e"
    using that by (rule retry_loop)
  from step again show ?thesis by blast
qed

theorem pointer_advances_by_width_or_stays_witness:
  "0 \<le> cfg_batchSize (sampleConfig 5 None 10)
   \<and> dispatching (sampleConfig 5 None 10) (poll 8 (\<lambda>n. quietBlock))
        (initialVars\<lparr>currBlockNumber := 5\<rparr>) 8
   \<and> \<not> someRaises 0 (sampleConfig 5 None 10) (poll 8 (\<lambda>n. quietBlock))
        (initialVars\<lparr>currBlockNumber := 5\<rparr>) 8
   \<and> (\<exists>v'. iteration 0 (sampleConfig 5 None 10) (poll 8 (\<lambda>n. quietBlock))
              (initialVars\<lparr>currBlockNumber := 5\<rparr>) = Continue v'
            \<and> currBlockNumber v' = 8)
   \<and> \<not> reachedFinishBlock (sampleConfig 5 None 10) (initialVars\<lparr>currBlockNumber := 5\<rparr>)
   \<and> failing 0 (sampleConfig 5 None 10) (initialVars\<lparr>currBlockNumber := 5\<rparr>)
        (poll 8 (\<lambda>n. if n = 6 then absentBlock else quietBlock))
   \<and> failing 0 (sampleConfig 5 None 10) (initialVars\<lparr>currBlockNumber := 5\<rparr>)
        (poll 9 (\<lambda>n. if n = 6 then absentBlock else quietBlock))
   \<and> (\<exists>v'. loop 0 (sampleConfig 5 None 10)
              [poll 8 (\<lambda>n. if n = 6 then absentBlock else quietBlock),
               poll 9 (\<lambda>n. if n = 6 then absentBlock else quietBlock)]
              (initialVars\<lparr>currBlockNumber := 5\<rparr>) = Unfinished v'
            \<and> currBlockNumber v' = 5
            \<and> sleeps (events v') = []
            \<and> dispatches (events v') = [[6, 7, 8], [6, 7, 8, 9]])"
proof -
  let ?cfg = "sampleConfig 5 None 10"
  let ?v = "initialVars\<lparr>currBlockNumber := 5\<rparr>"
  let ?good = "poll 8 (\<lambda>n. quietBlock)"
  let ?bad = "\<lambda>tip. poll tip (\<lambda>n. if n = 6 then absentBlock else quietBlock)"
  have b: "0 \<le> cfg_batchSize ?cfg"
    by (simp add: sampleConfig_def)
  have d: "dispatching ?cfg ?good ?v 8"
    by code_simp
  have r: "\<not> someRaises 0 ?cfg ?good ?v 8"
    by code_simp
  have w: "width ?cfg ?v 8 = 3" "currBlockNumber ?v = 5" "events ?v = []"
    by (simp_all add: width_def sampleConfig_def initialVars_def)
  have f: "\<not> reachedFinishBlock ?cfg ?v"
    by (simp add: reachedFinishBlock_def sampleConfig_def)
  have f8: "failing 0 ?cfg ?v (?bad 8)" and f9: "failing 0 ?cfg ?v (?bad 9)"
    by code_simp+
  then have fs: "\<forall>e \<in> set [?bad 8, ?bad 9]. failing 0 ?cfg ?v e"
    by simp
  have rs: "map (retried ?cfg ?v) [?bad 8, ?bad 9] = [[6, 7, 8], [6, 7, 8, 9]]"
    by code_simp
  from pointer_advances_by_width_or_stays [OF b, of ?good ?v 8 0 "[?bad 8, ?bad 9]"]
  show ?thesis
    using b d r w f f8 f9 fs rs by auto
qed

section \<open>Failure records of a batch that raised\<close>

text \<open>
  C10. In every batch in which at least one invocation raises, the join rejects and the
  results are never read: the failure records of the invocations that completed are
  dropped, and neither the failed-call counter nor the timeout-call counter changes in that
  iteration.
\<close>

theorem failures_dropped_when_batch_raises:
  assumes "dispatching cfg env v latest"
    and "someRaises idx cfg env v latest"
  shows "\<exists>v'. iteration idx cfg env v = Continue v'
           \<and> failCalls v' = failCalls v \<and> timeoutCalls v' = timeoutCalls v"
proof -
  from dispatching_raise [OF assms] obtain v' where
      "iteration idx cfg env v = Continue v'" and "hooked v (v'\<lparr>events := events v\<rparr>)"
    by blast
  then show ?thesis by (auto simp: hooked_def)
qed

theorem failures_dropped_when_batch_raises_witness:
  "dispatching (sampleConfig 5 None 10) (poll 7 (\<lambda>n. if n = 6 then absentBlock else busyBlock))
     (initialVars\<lparr>currBlockNumber := 5\<rparr>) 7
   \<and> someRaises 0 (sampleConfig 5 None 10)
        (poll 7 (\<lambda>n. if n = 6 then absentBlock else busyBlock))
        (initialVars\<lparr>currBlockNumber := 5\<rparr>) 7
   \<and> length (projr (snd (processBlock 0 (sampleConfig 5 None 10) busyBlock 7 initialVars))) = 2
   \<and> (\<exists>v'. iteration 0 (sampleConfig 5 None 10)
              (poll 7 (\<lambda>n. if n = 6 then absentBlock else busyBlock))
              (initialVars\<lparr>currBlockNumber := 5\<rparr>) = Continue v'
            \<and> failCalls v' = 0 \<and> timeoutCalls v' = 0)"
proof -
  let ?cfg = "sampleConfig 5 None 10"
  let ?env = "poll 7 (\<lambda>n. if n = 6 then absentBlock else busyBlock)"
  let ?v = "initialVars\<lparr>currBlockNumber := 5\<rparr>"
  have d: "dispatching ?cfg ?env ?v 7"
    by code_simp
  have r: "someRaises 0 ?cfg ?env ?v 7"
    by code_simp
  have two: "length (projr (snd (processBlock 0 ?cfg busyBlock 7 initialVars))) = 2"
    by code_simp
  have z: "failCalls ?v = 0" "timeoutCalls ?v = 0"
    by (simp_all add: initialVars_def)
  from failures_dropped_when_batch_raises [OF d r] show ?thesis
    using d r two z by auto
qed

section \<open>Receipt failures inside a block\<close>

lemma collectFails_enumerate:
  "collectFails clock (int n) outs =
     [\<lparr>reason = e, timestamp = clock (int i)\<rparr>. (i, Inl e) \<leftarrow> enumerate n outs]"
proof (induction outs arbitrary: n)
  case Nil
  show ?case by simp
next
  case (Cons out outs)
  have next_index: "int n + 1 = int (Suc n)"
    by simp
  show ?case
    by (cases out) (simp_all only: collectFails.simps next_index Cons.IH, simp_all)
qed

lemma collectFails_from_0:
  "collectFails clock 0 outs =
     [\<lparr>reason = e, timestamp = clock (int i)\<rparr>. (i, Inl e) \<leftarrow> enumerate 0 outs]"
  using collectFails_enumerate [of clock 0 outs] by (simp only: of_nat_0)

lemma length_collectFails: "length (collectFails clock i outs) = length (filter isl outs)"
  by (induction clock i outs rule: collectFails.induct) simp_all

text \<open>
  C4, as the claim states it, fails in its last clause: \<^verbatim>\<open>processBlock\<close> raises not only
  when \<^verbatim>\<open>getBlock\<close> answers that the block is absent, but also when the call of
  \<^verbatim>\<open>getBlock\<close> is itself rejected (line 279 awaits it outside any \<^verbatim>\<open>try\<close>). Below,
  the block fetch times out: the node reports nothing about the block, and the invocation
  raises with the rejection of the fetch.
\<close>

theorem processBlock_raises_on_rejected_fetch:
  "outcome (getBlock unreachableBlock) \<noteq> Inr None
   \<and> snd (processBlock 0 (sampleConfig 5 None 10) unreachableBlock 7 initialVars) =
       Inl (Rejected ''Error: request timeout (code=TIMEOUT)'')"
  by code_simp

text \<open>
  C4, amended: for every block that is fetched, with k transactions of which m receipt
  requests reject, the block processor returns normally a list of exactly m failure
  records, one for each rejected request in the order of the transactions, each with the
  text of the rejection and the reading of the clock when the rejection is examined; it
  raises exactly when the block fetch delivers no block, because the fetch reports the
  block absent or because the fetch itself is rejected.
\<close>

theorem processBlock_records_receipt_failures:
  "(outcome (getBlock provider) = Inr (Some blk) \<longrightarrow>
      snd (processBlock idx cfg provider blockNumber v) =
        Inr [\<lparr>reason = e, timestamp = examinedAt provider (int i)\<rparr>.
               (i, Inl e) \<leftarrow> enumerate 0
                  (map (\<lambda>tx. outcome (getTransactionReceipt provider tx)) (transactions blk))]
      \<and> length (projr (snd (processBlock idx cfg provider blockNumber v))) =
          length (filter isl
            (map (\<lambda>tx. outcome (getTransactionReceipt provider tx)) (transactions blk))))
   \<and> (isl (snd (processBlock idx cfg provider blockNumber v)) =
        (outcome (getBlock provider) = Inr None \<or> isl (outcome (getBlock provider))))"
proof -
  let ?outs = "map (\<lambda>tx. outcome (getTransactionReceipt provider tx)) (transactions blk)"
  have fetched: "snd (processBlock idx cfg provider blockNumber v) =
      Inr (collectFails (examinedAt provider) 0 ?outs)"
    if "outcome (getBlock provider) = Inr (Some blk)"
    using that by (simp add: processBlock_def Let_def Promise_allSettled_def comp_def)
  have listed: "snd (processBlock idx cfg provider blockNumber v) =
      Inr [\<lparr>reason = e, timestamp = examinedAt provider (int i)\<rparr>.
             (i, Inl e) \<leftarrow> enumerate 0 ?outs]"
    if "outcome (getBlock provider) = Inr (Some blk)"
    using fetched [OF that] by (simp only: collectFails_from_0)
  have counted: "length (projr (snd (processBlock idx cfg provider blockNumber v))) =
      length (filter isl ?outs)"
    if "outcome (getBlock provider) = Inr (Some blk)"
    using fetched [OF that] by (simp add: length_collectFails)
  have raise: "isl (snd (processBlock idx cfg provider blockNumber v)) =
      (outcome (getBlock provider) = Inr None \<or> isl (outcome (getBlock provider)))"
    by (simp add: isl_processBlock split: sum.split option.split)
  from listed counted raise show ?thesis
    by blast
qed

theorem processBlock_records_receipt_failures_witness:
  "outcome (getBlock busyBlock) = Inr (Some \<lparr>transactions = [''0xa'', ''0xb'', ''0xc'']\<rparr>)
   \<and> snd (processBlock 0 (sampleConfig 5 None 10) busyBlock 7 initialVars) =
       Inr [\<lparr>reason = ''Error: request timeout (code=TIMEOUT)'', timestamp = 201\<rparr>,
            \<lparr>reason = ''Error: server response 429 Too Many Requests'', timestamp = 202\<rparr>]
   \<and> length (filter isl (map (\<lambda>tx. outcome (getTransactionReceipt busyBlock tx))
        [''0xa'', ''0xb'', ''0xc''])) = 2"
proof -
  have b: "outcome (getBlock busyBlock) = Inr (Some \<lparr>transactions = [''0xa'', ''0xb'', ''0xc'']\<rparr>)"
    by (simp add: busyBlock_def answered_def)
  have r: "snd (processBlock 0 (sampleConfig 5 None 10) busyBlock 7 initialVars) =
       Inr [\<lparr>reason = ''Error: request timeout (code=TIMEOUT)'', timestamp = 201\<rparr>,
            \<lparr>reason = ''Error: server response 429 Too Many Requests'', timestamp = 202\<rparr>]"
    by code_simp
  have m: "length (filter isl (map (\<lambda>tx. outcome (getTransactionReceipt busyBlock tx))
        [''0xa'', ''0xb'', ''0xc''])) = 2"
    by code_simp
  from processBlock_records_receipt_failures
    [of busyBlock "\<lparr>transactions = [''0xa'', ''0xb'', ''0xc'']\<rparr>" 0 "sampleConfig 5 None 10" 7 initialVars]
  show ?thesis using b r m by simp
qed

section \<open>The counters\<close>




section \<open>The join over a batch\<close>






section \<open>A run bounded by a finish block\<close>



section \<open>The retry hook\<close>

text \<open>
  C8. For every request, response and attempt number the retry hook answers false and
  leaves the variables as they are; a request is therefore never sent again (the attempts
  scripted after the first are not used), and the retry counter of every returned result
  is 0.
\<close>

theorem retry_declined:
  "snd (retryFunc v req res attempt) = False
   \<and> fst (retryFunc v req res attempt) = v
   \<and> send n (a # later) v = send n [a] v
   \<and> (startScheduler idx cfg env = Returned r \<longrightarrow> res_retryCalls r = 0)"
proof -
  have "res_retryCalls r = 0" if "startScheduler idx cfg env = Returned r"
  proof -
    from startScheduler_Returned [OF that] obtain s w w'
      where a: "resolveStart cfg env initialVars = (w, Inr s)"
        and b: "loop idx cfg (iterations env) (w\<lparr>currBlockNumber := s\<rparr>) = Stopped w'"
        and c: "r = makeResult idx cfg s (returnedAt env) w'"
      by blast
    have "grows initialVars w'" using a b by (intro grows_from_start) auto
    then show ?thesis using c by (simp add: grows_def makeResult_def initialVars_def)
  qed
  moreover have "send n (a # later) v = send n [a] v"
    by (simp add: send_step del: send.simps)
  ultimately show ?thesis by (simp add: retryFunc_def)
qed

theorem retry_declined_witness:
  "startScheduler 0 (sampleConfig 10 (Some 10) 1) (script [poll 11 (\<lambda>n. busyBlock)]) =
     Returned \<lparr>res_idx = 0, res_calls = 4, res_failCalls = 2, res_retryCalls = 0,
       res_finishTimeMs = 2000, res_startBlockNumber = 10, res_finishBlockNumber = 10,
       res_totalCallMs = 100, res_rpcUrl = ''http://node''\<rparr>
   \<and> snd (retryFunc initialVars \<lparr>header_startTimeMs = 100\<rparr>
            \<lparr>statusCode = 429, receivedAt = 110\<rparr> 0) = False
   \<and> send 0 [\<lparr>sentAt = 100, response = Some \<lparr>statusCode = 429, receivedAt = 110\<rparr>\<rparr>,
              \<lparr>sentAt = 120, response = Some \<lparr>statusCode = 200, receivedAt = 125\<rparr>\<rparr>]
        initialVars =
      initialVars\<lparr>totalReqs := 1, totalCalls := 1, totalCallMs := 10\<rparr>"
proof -
  let ?a = "\<lparr>sentAt = 100, response = Some \<lparr>statusCode = 429, receivedAt = 110\<rparr>\<rparr>"
  let ?b = "\<lparr>sentAt = 120, response = Some \<lparr>statusCode = 200, receivedAt = 125\<rparr>\<rparr>"
  let ?r = "\<lparr>res_idx = 0, res_calls = 4, res_failCalls = 2, res_retryCalls = 0,
       res_finishTimeMs = 2000, res_startBlockNumber = 10, res_finishBlockNumber = 10,
       res_totalCallMs = 100, res_rpcUrl = ''http://node''\<rparr>"
  have run: "startScheduler 0 (sampleConfig 10 (Some 10) 1) (script [poll 11 (\<lambda>n. busyBlock)]) =
      Returned ?r"
    by code_simp
  have one: "send 0 [?a] initialVars = initialVars\<lparr>totalReqs := 1, totalCalls := 1, totalCallMs := 10\<rparr>"
    by (simp add: send_step initialVars_def del: send.simps)
  from retry_declined [of initialVars "\<lparr>header_startTimeMs = 100\<rparr>"
      "\<lparr>statusCode = 429, receivedAt = 110\<rparr>" 0 0 ?a "[?b]" 0
      "sampleConfig 10 (Some 10) 1" "script [poll 11 (\<lambda>n. busyBlock)]" ?r]
  show ?thesis using run one by simp
qed

section \<open>The figures of the summary\<close>




end
